theory Spec2Isabelle
  imports Main "HOL-Library.Sublist"
begin

section \<open>The GPIO pass-through program of gpio_behavior.c\<close>

text \<open>
  The program is one C function, \<^verbatim>\<open>main\<close>, that calls the GPIO library (libgpiod),
  \<^verbatim>\<open>perror\<close> and \<^verbatim>\<open>usleep\<close>. These callees are not part of the repository, so the
  model treats each of them as an operation on a world: the call is appended to a trace
  together with its arguments and its result, and the result is whatever the world
  supplies. Unless a theorem names an assumption, nothing is assumed about the results,
  so the theorems hold for a library that fails as well as for one that succeeds. Every
  call returns in the model, also one that is handed a NULL handle: what the library does
  with it is not decided by this program.
\<close>

subsection \<open>Compiled-in constants (lines 5 to 7)\<close>

definition GPIO_CHIP :: string where
  "GPIO_CHIP = ''/dev/gpiochip0''"

definition INPUT_LINE :: nat where
  "INPUT_LINE = 10"

definition OUTPUT_LINE :: nat where
  "OUTPUT_LINE = 24"

subsection \<open>Handles, events and the world\<close>

text \<open>
  A non-NULL \<^verbatim>\<open>struct gpiod_chip *\<close> is a \<open>chip\<close>, a non-NULL
  \<^verbatim>\<open>struct gpiod_line *\<close> is a \<open>line\<close>; a pointer that may be NULL is an
  \<open>option\<close>, with \<open>None\<close> for NULL. C \<^verbatim>\<open>int\<close> values are only handed on, never
  computed with, so they are modelled as \<open>int\<close>.
\<close>

datatype chip = Chip nat

datatype line = Line nat

text \<open>One event per call of an external function: the arguments, then the result.\<close>

datatype event =
    Chip_open string "chip option"
  | Perror string
  | Chip_get_line chip nat "line option"
  | Line_request_input "line option" string int
  | Line_request_output "line option" string int int
  | Line_get_value "line option" int
  | Line_set_value "line option" int int
  | Usleep nat
  | Chip_close chip

text \<open>
  The world: what the library answers, and the calls made so far.
  \<open>signal w k\<close> is the value that the \<open>k\<close>-th coming call of
  \<^verbatim>\<open>gpiod_line_get_value\<close> returns (0 or 1 for a level, -1 for an error).
\<close>

record world =
  devices :: "string \<Rightarrow> chip option"
  lines :: "chip \<Rightarrow> nat \<Rightarrow> line option"
  request_input_rc :: "line option \<Rightarrow> string \<Rightarrow> int"
  request_output_rc :: "line option \<Rightarrow> string \<Rightarrow> int \<Rightarrow> int"
  set_value_rc :: "line option \<Rightarrow> int \<Rightarrow> int"
  signal :: "nat \<Rightarrow> int"
  trace :: "event list"

subsection \<open>The external calls\<close>

definition gpiod_chip_open :: "string \<Rightarrow> world \<Rightarrow> chip option \<times> world" where
  "gpiod_chip_open path w =
     (let r = devices w path in (r, w\<lparr>trace := trace w @ [Chip_open path r]\<rparr>))"

definition perror :: "string \<Rightarrow> world \<Rightarrow> world" where
  "perror s w = w\<lparr>trace := trace w @ [Perror s]\<rparr>"

definition gpiod_chip_get_line :: "chip \<Rightarrow> nat \<Rightarrow> world \<Rightarrow> line option \<times> world" where
  "gpiod_chip_get_line c off w =
     (let r = lines w c off in (r, w\<lparr>trace := trace w @ [Chip_get_line c off r]\<rparr>))"

definition gpiod_line_request_input :: "line option \<Rightarrow> string \<Rightarrow> world \<Rightarrow> int \<times> world" where
  "gpiod_line_request_input l consumer w =
     (let r = request_input_rc w l consumer
      in (r, w\<lparr>trace := trace w @ [Line_request_input l consumer r]\<rparr>))"

definition gpiod_line_request_output ::
  "line option \<Rightarrow> string \<Rightarrow> int \<Rightarrow> world \<Rightarrow> int \<times> world" where
  "gpiod_line_request_output l consumer default_val w =
     (let r = request_output_rc w l consumer default_val
      in (r, w\<lparr>trace := trace w @ [Line_request_output l consumer default_val r]\<rparr>))"

definition gpiod_line_get_value :: "line option \<Rightarrow> world \<Rightarrow> int \<times> world" where
  "gpiod_line_get_value l w =
     (let v = signal w 0
      in (v, w\<lparr>signal := (\<lambda>k. signal w (Suc k)), trace := trace w @ [Line_get_value l v]\<rparr>))"

definition gpiod_line_set_value :: "line option \<Rightarrow> int \<Rightarrow> world \<Rightarrow> int \<times> world" where
  "gpiod_line_set_value l v w =
     (let r = set_value_rc w l v in (r, w\<lparr>trace := trace w @ [Line_set_value l v r]\<rparr>))"

definition usleep :: "nat \<Rightarrow> world \<Rightarrow> world" where
  "usleep us w = w\<lparr>trace := trace w @ [Usleep us]\<rparr>"

definition gpiod_chip_close :: "chip \<Rightarrow> world \<Rightarrow> world" where
  "gpiod_chip_close c w = w\<lparr>trace := trace w @ [Chip_close c]\<rparr>"

subsection \<open>The program\<close>

text \<open>Lines 13 to 23: open the chip, leave with status 1 when that fails, else get and
  request the two lines. The results of the four calls after the open are bound and not
  looked at, as in the source.\<close>

definition startup :: "world \<Rightarrow> (int \<times> world) + (chip \<times> line option \<times> line option \<times> world)" where
  "startup w =
     (let (chip, w1) = gpiod_chip_open GPIO_CHIP w in
      case chip of
        None \<Rightarrow> Inl (1, perror ''Open chip failed'' w1)
      | Some c \<Rightarrow>
          (let (in_line, w2) = gpiod_chip_get_line c INPUT_LINE w1;
               (out_line, w3) = gpiod_chip_get_line c OUTPUT_LINE w2;
               (_, w4) = gpiod_line_request_input in_line ''gpio_in'' w3;
               (_, w5) = gpiod_line_request_output out_line ''gpio_out'' 0 w4
           in Inr (c, in_line, out_line, w5)))"

text \<open>Lines 26 to 28: one pass of the loop body.\<close>

definition loop_body :: "line option \<Rightarrow> line option \<Rightarrow> world \<Rightarrow> world" where
  "loop_body in_line out_line w =
     (let (val, w1) = gpiod_line_get_value in_line w;
          (_, w2) = gpiod_line_set_value out_line val w1
      in usleep 10000 w2)"

text \<open>Lines 25 to 29: \<^verbatim>\<open>while (1)\<close> has no exit, so the loop is a partial function;
  \<open>None\<close> is the loop that never returns.\<close>

partial_function (option) main_loop :: "line option \<Rightarrow> line option \<Rightarrow> world \<Rightarrow> world option" where
  "main_loop in_line out_line w = main_loop in_line out_line (loop_body in_line out_line w)"

text \<open>The whole of \<^verbatim>\<open>main\<close>: the exit status and the final world, or \<open>None\<close> when
  \<^verbatim>\<open>main\<close> never returns. Lines 31 and 32 follow the loop.\<close>

definition main :: "world \<Rightarrow> (int \<times> world) option" where
  "main w =
     (case startup w of
        Inl (status, w') \<Rightarrow> Some (status, w')
      | Inr (c, in_line, out_line, w5) \<Rightarrow>
          (case main_loop in_line out_line w5 of
             None \<Rightarrow> None
           | Some w6 \<Rightarrow> Some (0, gpiod_chip_close c w6)))"

text \<open>The first \<open>n\<close> passes of the loop, and the program observed after \<open>n\<close> passes:
  the exit status if it has returned by then, and the world.\<close>

fun loop_n :: "nat \<Rightarrow> line option \<Rightarrow> line option \<Rightarrow> world \<Rightarrow> world" where
  "loop_n 0 in_line out_line w = w"
| "loop_n (Suc n) in_line out_line w = loop_n n in_line out_line (loop_body in_line out_line w)"

definition main_n :: "nat \<Rightarrow> world \<Rightarrow> int option \<times> world" where
  "main_n n w =
     (case startup w of
        Inl (status, w') \<Rightarrow> (Some status, w')
      | Inr (c, in_line, out_line, w5) \<Rightarrow> (None, loop_n n in_line out_line w5))"

text \<open>The calls the program itself has made after \<open>n\<close> passes of the loop.\<close>

definition events :: "nat \<Rightarrow> world \<Rightarrow> event list" where
  "events n w = drop (length (trace w)) (trace (snd (main_n n w)))"

subsection \<open>Observations on a trace\<close>

text \<open>The values returned by the reads, and the values handed to the writes.\<close>

fun reads :: "event list \<Rightarrow> int list" where
  "reads [] = []"
| "reads (Line_get_value l v # t) = v # reads t"
| "reads (e # t) = reads t"

fun writes :: "event list \<Rightarrow> int list" where
  "writes [] = []"
| "writes (Line_set_value l v r # t) = v # writes t"
| "writes (e # t) = writes t"

text \<open>The events of the startup after a successful open, and of the pass number \<open>k\<close>.\<close>

definition startup_events :: "world \<Rightarrow> chip \<Rightarrow> event list" where
  "startup_events w c =
     [Chip_open GPIO_CHIP (Some c),
      Chip_get_line c INPUT_LINE (lines w c INPUT_LINE),
      Chip_get_line c OUTPUT_LINE (lines w c OUTPUT_LINE),
      Line_request_input (lines w c INPUT_LINE) ''gpio_in''
        (request_input_rc w (lines w c INPUT_LINE) ''gpio_in''),
      Line_request_output (lines w c OUTPUT_LINE) ''gpio_out'' 0
        (request_output_rc w (lines w c OUTPUT_LINE) ''gpio_out'' 0)]"

definition pass_events :: "world \<Rightarrow> line option \<Rightarrow> line option \<Rightarrow> nat \<Rightarrow> event list" where
  "pass_events w il ol k =
     [Line_get_value il (signal w k),
      Line_set_value ol (signal w k) (set_value_rc w ol (signal w k)),
      Usleep 10000]"

definition loop_events :: "world \<Rightarrow> line option \<Rightarrow> line option \<Rightarrow> nat \<Rightarrow> event list" where
  "loop_events w il ol n = concat (map (pass_events w il ol) [0..<n])"

text \<open>The operation an event is a call of.\<close>

datatype op =
    Op_chip_open | Op_perror | Op_get_line | Op_request_input | Op_request_output
  | Op_get_value | Op_set_value | Op_usleep | Op_chip_close

fun op_of :: "event \<Rightarrow> op" where
  "op_of (Chip_open p r) = Op_chip_open"
| "op_of (Perror s) = Op_perror"
| "op_of (Chip_get_line c off r) = Op_get_line"
| "op_of (Line_request_input l s r) = Op_request_input"
| "op_of (Line_request_output l s v r) = Op_request_output"
| "op_of (Line_get_value l v) = Op_get_value"
| "op_of (Line_set_value l v r) = Op_set_value"
| "op_of (Usleep us) = Op_usleep"
| "op_of (Chip_close c) = Op_chip_close"

text \<open>The values the program has given to an output line, oldest first: the initial
  value of a request for output, and the value of every write. The last of them is the
  value the program has most recently put on the output.\<close>

fun outputs :: "event list \<Rightarrow> int list" where
  "outputs [] = []"
| "outputs (Line_request_output l s v r # t) = v # outputs t"
| "outputs (Line_set_value l v r # t) = v # outputs t"
| "outputs (e # t) = outputs t"

definition out_value :: "event list \<Rightarrow> int option" where
  "out_value t = (case rev (outputs t) of [] \<Rightarrow> None | v # _ \<Rightarrow> Some v)"

text \<open>The paths opened, the chips an open returned, and for the calls of
  \<^verbatim>\<open>gpiod_chip_get_line\<close> the chips they were made on, the offsets, and the handles
  they returned.\<close>

fun open_paths :: "event list \<Rightarrow> string list" where
  "open_paths [] = []"
| "open_paths (Chip_open p r # t) = p # open_paths t"
| "open_paths (e # t) = open_paths t"

fun opened :: "event list \<Rightarrow> chip list" where
  "opened [] = []"
| "opened (Chip_open p (Some c) # t) = c # opened t"
| "opened (e # t) = opened t"

fun line_chips :: "event list \<Rightarrow> chip list" where
  "line_chips [] = []"
| "line_chips (Chip_get_line c off r # t) = c # line_chips t"
| "line_chips (e # t) = line_chips t"

fun line_offsets :: "event list \<Rightarrow> nat list" where
  "line_offsets [] = []"
| "line_offsets (Chip_get_line c off r # t) = off # line_offsets t"
| "line_offsets (e # t) = line_offsets t"

fun acquired :: "event list \<Rightarrow> line option list" where
  "acquired [] = []"
| "acquired (Chip_get_line c off r # t) = r # acquired t"
| "acquired (e # t) = acquired t"

text \<open>The handles requested as input and as output, and the handles read and written.\<close>

fun input_handles :: "event list \<Rightarrow> line option list" where
  "input_handles [] = []"
| "input_handles (Line_request_input l s r # t) = l # input_handles t"
| "input_handles (e # t) = input_handles t"

fun output_handles :: "event list \<Rightarrow> line option list" where
  "output_handles [] = []"
| "output_handles (Line_request_output l s v r # t) = l # output_handles t"
| "output_handles (e # t) = output_handles t"

fun read_handles :: "event list \<Rightarrow> line option list" where
  "read_handles [] = []"
| "read_handles (Line_get_value l v # t) = l # read_handles t"
| "read_handles (e # t) = read_handles t"

fun written_handles :: "event list \<Rightarrow> line option list" where
  "written_handles [] = []"
| "written_handles (Line_set_value l v r # t) = l # written_handles t"
| "written_handles (e # t) = written_handles t"

text \<open>The values that the reads on the handle \<open>h\<close> returned, and the values that
  the writes on the handle \<open>h\<close> were given, oldest first.\<close>

fun reads_on :: "line option \<Rightarrow> event list \<Rightarrow> int list" where
  "reads_on h [] = []"
| "reads_on h (Line_get_value l v # t) = (if l = h then v # reads_on h t else reads_on h t)"
| "reads_on h (e # t) = reads_on h t"

fun writes_on :: "line option \<Rightarrow> event list \<Rightarrow> int list" where
  "writes_on h [] = []"
| "writes_on h (Line_set_value l v r # t) = (if l = h then v # writes_on h t else writes_on h t)"
| "writes_on h (e # t) = writes_on h t"

text \<open>The handles held at a point of the run: at most one chip was opened, at most two
  line handles were taken and all of them from an opened chip, at most one handle was
  requested as input and at most one as output, each of them one of the handles taken,
  and the loop reads only a handle requested as input and writes only one requested as
  output.\<close>

definition handles_ok :: "event list \<Rightarrow> bool" where
  "handles_ok t \<longleftrightarrow>
     length (opened t) \<le> 1 \<and>
     length (acquired t) \<le> 2 \<and>
     length (input_handles t) \<le> 1 \<and>
     length (output_handles t) \<le> 1 \<and>
     set (line_chips t) \<subseteq> set (opened t) \<and>
     set (input_handles t) \<subseteq> set (acquired t) \<and>
     set (output_handles t) \<subseteq> set (acquired t) \<and>
     set (read_handles t) \<subseteq> set (input_handles t) \<and>
     set (written_handles t) \<subseteq> set (output_handles t)"

text \<open>A trace of loop passes only: reads, writes and sleeps.\<close>

definition loop_only :: "event list \<Rightarrow> bool" where
  "loop_only t = list_all (\<lambda>e. op_of e = Op_get_value \<or> op_of e = Op_set_value \<or> op_of e = Op_usleep) t"

subsection \<open>Example worlds\<close>

text \<open>A simulated provider on which everything succeeds: the device is present, the line
  at offset \<open>off\<close> has the handle \<open>Line off\<close>, and the input carries the given signal.\<close>

definition world_ok :: "(nat \<Rightarrow> int) \<Rightarrow> world" where
  "world_ok sig =
     \<lparr>devices = (\<lambda>p. if p = ''/dev/gpiochip0'' then Some (Chip 0) else None),
      lines = (\<lambda>c off. Some (Line off)),
      request_input_rc = (\<lambda>l s. 0),
      request_output_rc = (\<lambda>l s v. 0),
      set_value_rc = (\<lambda>l v. 0),
      signal = sig,
      trace = []\<rparr>"

text \<open>No device can be opened.\<close>

definition world_absent :: world where
  "world_absent =
     \<lparr>devices = (\<lambda>p. None),
      lines = (\<lambda>c off. None),
      request_input_rc = (\<lambda>l s. - 1),
      request_output_rc = (\<lambda>l s v. - 1),
      set_value_rc = (\<lambda>l v. - 1),
      signal = (\<lambda>k. - 1),
      trace = []\<rparr>"

text \<open>The device opens, and every later call fails: no line handle, requests, reads and
  writes return -1.\<close>

definition world_failing :: world where
  "world_failing =
     \<lparr>devices = (\<lambda>p. Some (Chip 7)),
      lines = (\<lambda>c off. None),
      request_input_rc = (\<lambda>l s. - 1),
      request_output_rc = (\<lambda>l s v. - 1),
      set_value_rc = (\<lambda>l v. - 1),
      signal = (\<lambda>k. - 1),
      trace = []\<rparr>"

text \<open>A square wave, and a signal with an error value in it.\<close>

definition square :: "nat \<Rightarrow> int" where
  "square k = (if even k then 0 else 1)"


section \<open>Basic facts\<close>

lemma main_loop_never_returns: "main_loop il ol w = None"
proof (cases "main_loop il ol w")
  case None
  then show ?thesis .
next
  case (Some w')
  then have False
    by (rule main_loop.raw_induct [rotated, where P = "\<lambda>_ _ _ _. False"]) blast
  then show ?thesis ..
qed

lemma main_loop_unroll: "main_loop il ol w = main_loop il ol (loop_n n il ol w)"
proof (induction n arbitrary: w)
  case 0
  show ?case by simp
next
  case (Suc n)
  have "main_loop il ol w = main_loop il ol (loop_body il ol w)"
    by (rule main_loop.simps)
  also have "\<dots> = main_loop il ol (loop_n n il ol (loop_body il ol w))"
    by (rule Suc.IH)
  finally show ?case by simp
qed

lemma startup_fail:
  assumes "devices w GPIO_CHIP = None"
  shows "startup w =
    Inl (1, w\<lparr>trace := trace w @ [Chip_open GPIO_CHIP None, Perror ''Open chip failed'']\<rparr>)"
  using assms by (simp add: startup_def gpiod_chip_open_def perror_def)

lemma startup_ok:
  assumes "devices w GPIO_CHIP = Some c"
  shows "startup w =
    Inr (c, lines w c INPUT_LINE, lines w c OUTPUT_LINE,
         w\<lparr>trace := trace w @ startup_events w c\<rparr>)"
  using assms
  by (simp add: startup_def gpiod_chip_open_def gpiod_chip_get_line_def
      gpiod_line_request_input_def gpiod_line_request_output_def startup_events_def Let_def)

lemma loop_body_eq:
  "loop_body il ol w =
     w\<lparr>signal := (\<lambda>k. signal w (Suc k)), trace := trace w @ pass_events w il ol 0\<rparr>"
  by (simp add: loop_body_def gpiod_line_get_value_def gpiod_line_set_value_def usleep_def
      pass_events_def Let_def)

lemma loop_events_0: "loop_events w il ol 0 = []"
  by (simp add: loop_events_def)

lemma loop_events_Suc:
  "loop_events w il ol (Suc n) = loop_events w il ol n @ pass_events w il ol n"
  by (simp add: loop_events_def)

lemma loop_events_shift:
  "loop_events w il ol (Suc n) =
     pass_events w il ol 0 @ concat (map (\<lambda>k. pass_events w il ol (Suc k)) [0..<n])"
proof -
  have "[0..<Suc n] = 0 # map Suc [0..<n]"
    by (simp add: upt_conv_Cons map_Suc_upt del: upt_Suc)
  then show ?thesis
    by (simp add: loop_events_def comp_def del: upt_Suc)
qed

lemma pass_events_loop_body:
  "pass_events (loop_body il' ol' w) il ol = (\<lambda>k. pass_events w il ol (Suc k))"
  by (rule ext) (simp add: loop_body_eq pass_events_def)

lemma loop_n_eq:
  "loop_n n il ol w =
     w\<lparr>signal := (\<lambda>k. signal w (n + k)), trace := trace w @ loop_events w il ol n\<rparr>"
proof (induction n arbitrary: w)
  case 0
  show ?case by (simp add: loop_events_0)
next
  case (Suc n)
  have "loop_n (Suc n) il ol w = loop_n n il ol (loop_body il ol w)"
    by simp
  also have "\<dots> = (loop_body il ol w)
      \<lparr>signal := (\<lambda>k. signal (loop_body il ol w) (n + k)),
       trace := trace (loop_body il ol w) @ loop_events (loop_body il ol w) il ol n\<rparr>"
    by (rule Suc.IH)
  also have "loop_events (loop_body il ol w) il ol n =
      concat (map (\<lambda>k. pass_events w il ol (Suc k)) [0..<n])"
    by (simp add: loop_events_def pass_events_loop_body)
  finally show ?case
    by (simp add: loop_events_shift loop_body_eq)
qed

lemma pass_events_trace_upd:
  "pass_events (w\<lparr>trace := t\<rparr>) il ol = pass_events w il ol"
  by (rule ext) (simp add: pass_events_def)

lemma loop_events_trace_upd:
  "loop_events (w\<lparr>trace := t\<rparr>) il ol n = loop_events w il ol n"
  by (simp add: loop_events_def pass_events_trace_upd)

lemma main_n_ok:
  assumes "devices w GPIO_CHIP = Some c"
  shows "main_n n w =
    (None, w\<lparr>signal := (\<lambda>k. signal w (n + k)),
              trace := trace w @ startup_events w c @
                loop_events w (lines w c INPUT_LINE) (lines w c OUTPUT_LINE) n\<rparr>)"
  by (simp add: main_n_def startup_ok [OF assms] loop_n_eq loop_events_trace_upd)

lemma main_n_fail:
  assumes "devices w GPIO_CHIP = None"
  shows "main_n n w =
    (Some 1, w\<lparr>trace := trace w @ [Chip_open GPIO_CHIP None, Perror ''Open chip failed'']\<rparr>)"
  by (simp add: main_n_def startup_fail [OF assms])

lemma events_ok:
  assumes "devices w GPIO_CHIP = Some c"
  shows "events n w =
    startup_events w c @ loop_events w (lines w c INPUT_LINE) (lines w c OUTPUT_LINE) n"
  by (simp add: events_def main_n_ok [OF assms])

lemma events_fail:
  assumes "devices w GPIO_CHIP = None"
  shows "events n w = [Chip_open GPIO_CHIP None, Perror ''Open chip failed'']"
  by (simp add: events_def main_n_fail [OF assms])

lemma main_ok:
  assumes "devices w GPIO_CHIP = Some c"
  shows "main w = None"
  by (simp add: main_def startup_ok [OF assms] main_loop_never_returns)

lemma main_fail:
  assumes "devices w GPIO_CHIP = None"
  shows "main w =
    Some (1, w\<lparr>trace := trace w @ [Chip_open GPIO_CHIP None, Perror ''Open chip failed'']\<rparr>)"
  by (simp add: main_def startup_fail [OF assms])

section \<open>Observations distribute over the parts of a trace\<close>

lemma reads_append: "reads (a @ b) = reads a @ reads b"
  by (induction a rule: reads.induct) simp_all

lemma writes_append: "writes (a @ b) = writes a @ writes b"
  by (induction a rule: writes.induct) simp_all

lemma outputs_append: "outputs (a @ b) = outputs a @ outputs b"
  by (induction a rule: outputs.induct) simp_all

lemma open_paths_append: "open_paths (a @ b) = open_paths a @ open_paths b"
  by (induction a rule: open_paths.induct) simp_all

lemma opened_append: "opened (a @ b) = opened a @ opened b"
  by (induction a rule: opened.induct) simp_all

lemma line_chips_append: "line_chips (a @ b) = line_chips a @ line_chips b"
  by (induction a rule: line_chips.induct) simp_all

lemma line_offsets_append: "line_offsets (a @ b) = line_offsets a @ line_offsets b"
  by (induction a rule: line_offsets.induct) simp_all

lemma acquired_append: "acquired (a @ b) = acquired a @ acquired b"
  by (induction a rule: acquired.induct) simp_all

lemma input_handles_append: "input_handles (a @ b) = input_handles a @ input_handles b"
  by (induction a rule: input_handles.induct) simp_all

lemma output_handles_append: "output_handles (a @ b) = output_handles a @ output_handles b"
  by (induction a rule: output_handles.induct) simp_all

lemma read_handles_append: "read_handles (a @ b) = read_handles a @ read_handles b"
  by (induction a rule: read_handles.induct) simp_all

lemma written_handles_append: "written_handles (a @ b) = written_handles a @ written_handles b"
  by (induction a rule: written_handles.induct) simp_all

lemma reads_on_append: "reads_on h (a @ b) = reads_on h a @ reads_on h b"
  by (induction h a rule: reads_on.induct) simp_all

lemma writes_on_append: "writes_on h (a @ b) = writes_on h a @ writes_on h b"
  by (induction h a rule: writes_on.induct) simp_all

lemmas obs_append =
  reads_append writes_append outputs_append open_paths_append opened_append
  line_chips_append line_offsets_append acquired_append input_handles_append
  output_handles_append read_handles_append written_handles_append

section \<open>Observations of the loop\<close>

lemma reads_loop: "reads (loop_events w il ol n) = map (signal w) [0..<n]"
  by (induction n) (simp_all add: loop_events_0 loop_events_Suc reads_append pass_events_def)

lemma writes_loop: "writes (loop_events w il ol n) = map (signal w) [0..<n]"
  by (induction n) (simp_all add: loop_events_0 loop_events_Suc writes_append pass_events_def)

lemma outputs_loop: "outputs (loop_events w il ol n) = map (signal w) [0..<n]"
  by (induction n) (simp_all add: loop_events_0 loop_events_Suc outputs_append pass_events_def)

lemma reads_on_loop: "reads_on il (loop_events w il ol n) = map (signal w) [0..<n]"
  by (induction n) (simp_all add: loop_events_0 loop_events_Suc reads_on_append pass_events_def)

lemma writes_on_loop: "writes_on ol (loop_events w il ol n) = map (signal w) [0..<n]"
  by (induction n) (simp_all add: loop_events_0 loop_events_Suc writes_on_append pass_events_def)

lemma ops_loop:
  "map op_of (loop_events w il ol n) =
     concat (replicate n [Op_get_value, Op_set_value, Op_usleep])"
proof (induction n)
  case 0
  show ?case by (simp add: loop_events_0)
next
  case (Suc n)
  have "concat (replicate (Suc n) [Op_get_value, Op_set_value, Op_usleep]) =
      concat (replicate n [Op_get_value, Op_set_value, Op_usleep]) @
      [Op_get_value, Op_set_value, Op_usleep]"
    by (simp only: replicate_append_same [symmetric] replicate_Suc concat_append concat.simps
        append_Nil2)
  with Suc show ?case
    by (simp add: loop_events_Suc pass_events_def)
qed

lemma loop_only_loop: "loop_only (loop_events w il ol n)"
  by (induction n) (simp_all add: loop_events_0 loop_events_Suc loop_only_def pass_events_def)

lemma read_handles_loop: "read_handles (loop_events w il ol n) = replicate n il"
  by (induction n)
    (simp_all add: loop_events_0 loop_events_Suc read_handles_append pass_events_def
      replicate_append_same)

lemma written_handles_loop: "written_handles (loop_events w il ol n) = replicate n ol"
  by (induction n)
    (simp_all add: loop_events_0 loop_events_Suc written_handles_append pass_events_def
      replicate_append_same)

lemma loop_only_obs:
  assumes "loop_only t"
  shows "open_paths t = []" and "opened t = []" and "line_chips t = []"
    and "line_offsets t = []" and "acquired t = []" and "input_handles t = []"
    and "output_handles t = []"
  using assms
  by (induction t; simp add: loop_only_def; case_tac a; simp)+

section \<open>Facts about the example worlds and the output value\<close>

lemma devices_world_ok: "devices (world_ok sig) GPIO_CHIP = Some (Chip 0)"
  by (simp add: world_ok_def GPIO_CHIP_def)

lemma devices_world_failing: "devices world_failing GPIO_CHIP = Some (Chip 7)"
  by (simp add: world_failing_def)

lemma devices_world_absent: "devices world_absent GPIO_CHIP = None"
  by (simp add: world_absent_def)

lemma out_value_snoc: "outputs t = vs @ [v] \<Longrightarrow> out_value t = Some v"
  by (simp add: out_value_def)

lemma upt_3: "[0..<3] = [0, 1, 2]"
  by (simp add: upt_rec)

section \<open>Prefixes of a run\<close>

lemma loop_only_prefix: "prefix u t \<Longrightarrow> loop_only t \<Longrightarrow> loop_only u"
  by (auto simp: loop_only_def prefix_def)

lemma read_handles_prefix_loop:
  assumes "prefix u (loop_events w il ol n)"
  shows "set (read_handles u) \<subseteq> {il}"
proof -
  from assms obtain v where "loop_events w il ol n = u @ v"
    by (auto simp: prefix_def)
  with read_handles_loop [of w il ol n] have "replicate n il = read_handles u @ read_handles v"
    by (simp add: read_handles_append)
  then have "set (read_handles u) \<subseteq> set (replicate n il)"
    by simp
  then show ?thesis by auto
qed

lemma written_handles_prefix_loop:
  assumes "prefix u (loop_events w il ol n)"
  shows "set (written_handles u) \<subseteq> {ol}"
proof -
  from assms obtain v where "loop_events w il ol n = u @ v"
    by (auto simp: prefix_def)
  with written_handles_loop [of w il ol n] have "replicate n ol = written_handles u @ written_handles v"
    by (simp add: written_handles_append)
  then have "set (written_handles u) \<subseteq> set (replicate n ol)"
    by simp
  then show ?thesis by auto
qed

lemma handles_ok_startup_prefix:
  assumes "prefix t (startup_events w c)"
  shows "handles_ok t"
  using assms
  by (auto simp: startup_events_def prefix_Cons handles_ok_def)

lemma handles_ok_startup_loop:
  assumes "prefix u (loop_events w (lines w c INPUT_LINE) (lines w c OUTPUT_LINE) n)"
  shows "handles_ok (startup_events w c @ u)"
proof -
  have "loop_only u"
    using assms loop_only_loop by (rule loop_only_prefix)
  note z = loop_only_obs [OF this]
  have r: "set (read_handles u) \<subseteq> {lines w c INPUT_LINE}"
    using assms by (rule read_handles_prefix_loop)
  have wr: "set (written_handles u) \<subseteq> {lines w c OUTPUT_LINE}"
    using assms by (rule written_handles_prefix_loop)
  show ?thesis
    using r wr by (simp add: handles_ok_def obs_append z startup_events_def)
qed

lemma handles_ok_fail:
  assumes "prefix t [Chip_open p None, Perror s]"
  shows "handles_ok t"
  using assms by (auto simp: prefix_Cons handles_ok_def)

text \<open>Every state observed by \<open>main_n\<close> lies on the run of \<open>main\<close>: the loop of
  \<open>main\<close> passes through the world that \<open>main_n n\<close> returns.\<close>

lemma main_passes_through:
  assumes "devices w GPIO_CHIP = Some c"
  shows "main w =
    (case main_loop (lines w c INPUT_LINE) (lines w c OUTPUT_LINE) (snd (main_n n w)) of
       None \<Rightarrow> None
     | Some w6 \<Rightarrow> Some (0, gpiod_chip_close c w6))"
proof -
  let ?il = "lines w c INPUT_LINE" and ?ol = "lines w c OUTPUT_LINE"
  let ?w5 = "w\<lparr>trace := trace w @ startup_events w c\<rparr>"
  have "snd (main_n n w) = loop_n n ?il ?ol ?w5"
    by (simp add: main_n_def startup_ok [OF assms])
  moreover have "main_loop ?il ?ol ?w5 = main_loop ?il ?ol (loop_n n ?il ?ol ?w5)"
    by (rule main_loop_unroll)
  ultimately show ?thesis
    by (simp add: main_def startup_ok [OF assms])
qed

section \<open>The claims\<close>

text \<open>
  \<^bold>\<open>C1.\<close> Whatever values arrive at the input line, each pass of the loop writes to the
  output line the value it has read from the input line in that pass. After \<open>n\<close>
  passes the values read are the first \<open>n\<close> values of the signal and the values written
  are the same list; every read is made on the handle got for \<open>INPUT_LINE\<close> and every
  write on the handle got for \<open>OUTPUT_LINE\<close>, so the values read on the input handle and
  the values written on the output handle are that list too. Pass \<open>n\<close> is the read of
  the input handle, the write of the value read on the output handle, and the sleep; after
  it the last value written on the output handle is the value last read on the input
  handle. The value of the output is the value handed to the library; whether the pin
  follows is the library's matter.
\<close>

theorem C1_output_mirrors_input:
  assumes "devices w GPIO_CHIP = Some c"
  shows "reads (events n w) = map (signal w) [0..<n] \<and>
         writes (events n w) = reads (events n w) \<and>
         out_value (events (Suc n) w) = Some (signal w n) \<and>
         read_handles (events n w) = replicate n (lines w c INPUT_LINE) \<and>
         written_handles (events n w) = replicate n (lines w c OUTPUT_LINE) \<and>
         reads_on (lines w c INPUT_LINE) (events n w) = map (signal w) [0..<n] \<and>
         writes_on (lines w c OUTPUT_LINE) (events n w) =
           reads_on (lines w c INPUT_LINE) (events n w) \<and>
         last (reads_on (lines w c INPUT_LINE) (events (Suc n) w)) = signal w n \<and>
         last (writes_on (lines w c OUTPUT_LINE) (events (Suc n) w)) = signal w n \<and>
         events (Suc n) w =
           events n w @
           [Line_get_value (lines w c INPUT_LINE) (signal w n),
            Line_set_value (lines w c OUTPUT_LINE) (signal w n)
              (set_value_rc w (lines w c OUTPUT_LINE) (signal w n)),
            Usleep 10000]"
proof -
  let ?il = "lines w c INPUT_LINE" and ?ol = "lines w c OUTPUT_LINE"
  have ev: "\<And>m. events m w = startup_events w c @ loop_events w ?il ?ol m"
    by (rule events_ok [OF assms])
  have r: "reads (events n w) = map (signal w) [0..<n]"
    by (simp add: ev reads_append reads_loop startup_events_def)
  have wr: "writes (events n w) = map (signal w) [0..<n]"
    by (simp add: ev writes_append writes_loop startup_events_def)
  have "outputs (events (Suc n) w) = (0 # map (signal w) [0..<n]) @ [signal w n]"
    by (simp add: ev outputs_append outputs_loop startup_events_def)
  then have ov: "out_value (events (Suc n) w) = Some (signal w n)"
    by (rule out_value_snoc)
  have rh: "read_handles (events n w) = replicate n ?il"
    by (simp add: ev read_handles_append read_handles_loop startup_events_def)
  have wh: "written_handles (events n w) = replicate n ?ol"
    by (simp add: ev written_handles_append written_handles_loop startup_events_def)
  have ro: "\<And>m. reads_on ?il (events m w) = map (signal w) [0..<m]"
    by (simp add: ev reads_on_append reads_on_loop startup_events_def)
  have wo: "\<And>m. writes_on ?ol (events m w) = map (signal w) [0..<m]"
    by (simp add: ev writes_on_append writes_on_loop startup_events_def)
  have lr: "last (reads_on ?il (events (Suc n) w)) = signal w n"
    by (simp add: ro)
  have lw: "last (writes_on ?ol (events (Suc n) w)) = signal w n"
    by (simp add: wo)
  have step: "events (Suc n) w =
      events n w @
      [Line_get_value ?il (signal w n),
       Line_set_value ?ol (signal w n) (set_value_rc w ?ol (signal w n)),
       Usleep 10000]"
    by (simp add: ev loop_events_Suc pass_events_def)
  show ?thesis
    using r wr ov rh wh ro [of n] wo [of n] lr lw step by (simp only: simp_thms)
qed

theorem C1_output_mirrors_input_witness:
  "devices (world_ok square) GPIO_CHIP = Some (Chip 0) \<and>
   reads (events 3 (world_ok square)) = [0, 1, 0] \<and>
   writes (events 3 (world_ok square)) = [0, 1, 0] \<and>
   out_value (events (Suc 3) (world_ok square)) = Some 1 \<and>
   read_handles (events 3 (world_ok square)) =
     [Some (Line 10), Some (Line 10), Some (Line 10)] \<and>
   written_handles (events 3 (world_ok square)) =
     [Some (Line 24), Some (Line 24), Some (Line 24)] \<and>
   reads_on (Some (Line 10)) (events 3 (world_ok square)) = [0, 1, 0] \<and>
   writes_on (Some (Line 24)) (events 3 (world_ok square)) = [0, 1, 0] \<and>
   last (writes_on (Some (Line 24)) (events (Suc 3) (world_ok square))) = 1 \<and>
   events (Suc 3) (world_ok square) =
     events 3 (world_ok square) @
     [Line_get_value (Some (Line 10)) 1, Line_set_value (Some (Line 24)) 1 0, Usleep 10000]"
proof -
  have l: "lines (world_ok square) (Chip 0) INPUT_LINE = Some (Line 10)"
    "lines (world_ok square) (Chip 0) OUTPUT_LINE = Some (Line 24)"
    by (simp_all add: world_ok_def INPUT_LINE_def OUTPUT_LINE_def)
  have s: "signal (world_ok square) = square"
    by (simp add: world_ok_def)
  have rc: "\<And>h v. set_value_rc (world_ok square) h v = 0"
    by (simp add: world_ok_def)
  have sq: "square 0 = 0" "square (Suc 0) = 1" "square 2 = 0" "square 3 = 1"
    by (simp_all add: square_def)
  have r3: "\<And>x :: line option. replicate 3 x = [x, x, x]"
    by (simp add: numeral_3_eq_3)
  show ?thesis
    using C1_output_mirrors_input [where w = "world_ok square" and c = "Chip 0" and n = 3]
    by (simp add: devices_world_ok upt_3 l s sq rc r3 out_value_def outputs_append
        writes_on_append)
qed

text \<open>
  \<^bold>\<open>C2.\<close> When the chip cannot be opened (the open returns NULL), \<^verbatim>\<open>main\<close> reports
  through \<^verbatim>\<open>perror\<close> and returns 1, and the open and the report are the only calls
  it ever makes: no line is got, requested, read or written.
\<close>

theorem C2_open_failure_exits:
  assumes "devices w GPIO_CHIP = None"
  shows "main w =
           Some (1, w\<lparr>trace := trace w @
                   [Chip_open GPIO_CHIP None, Perror ''Open chip failed'']\<rparr>) \<and>
         events n w = [Chip_open GPIO_CHIP None, Perror ''Open chip failed''] \<and>
         map op_of (events n w) = [Op_chip_open, Op_perror]"
  by (simp add: main_fail [OF assms] events_fail [OF assms])

theorem C2_open_failure_exits_witness:
  "devices world_absent GPIO_CHIP = None \<and>
   map_option fst (main world_absent) = Some 1 \<and>
   map_option (trace \<circ> snd) (main world_absent) =
     Some [Chip_open ''/dev/gpiochip0'' None, Perror ''Open chip failed''] \<and>
   map op_of (events 5 world_absent) = [Op_chip_open, Op_perror]"
  using C2_open_failure_exits [where w = world_absent and n = 5]
  by (simp add: devices_world_absent) (simp add: world_absent_def GPIO_CHIP_def)

text \<open>
  \<^bold>\<open>C3.\<close> \<^verbatim>\<open>main\<close> never returns 0. Once the chip is open it does not return at
  all: after any number \<open>N\<close> of passes, whatever the input, the program is still running,
  it has made exactly \<open>N\<close> writes, and it has not closed the chip.
\<close>

theorem C3_loop_never_exits:
  "(\<forall>w'. main w \<noteq> Some (0, w')) \<and>
   (devices w GPIO_CHIP \<noteq> None \<longrightarrow>
      main w = None \<and>
      fst (main_n N w) = None \<and>
      length (writes (events N w)) = N \<and>
      Op_chip_close \<notin> set (map op_of (events N w)))"
proof (cases "devices w GPIO_CHIP")
  case None
  then show ?thesis by (simp add: main_fail)
next
  case (Some c)
  let ?il = "lines w c INPUT_LINE" and ?ol = "lines w c OUTPUT_LINE"
  have ev: "events N w = startup_events w c @ loop_events w ?il ?ol N"
    by (rule events_ok [OF Some])
  have m: "main w = None"
    by (rule main_ok [OF Some])
  have st: "fst (main_n N w) = None"
    by (simp add: main_n_ok [OF Some])
  have wr: "length (writes (events N w)) = N"
    by (simp add: ev writes_append writes_loop startup_events_def)
  have "Op_chip_close \<notin> set (concat (replicate N [Op_get_value, Op_set_value, Op_usleep]))"
    by (induction N) simp_all
  then have cl: "Op_chip_close \<notin> set (map op_of (events N w))"
    by (simp add: ev ops_loop startup_events_def del: set_concat)
  from m st wr cl Some show ?thesis by simp
qed

theorem C3_loop_never_exits_witness:
  "devices (world_ok square) GPIO_CHIP \<noteq> None \<and>
   main (world_ok square) = None \<and>
   fst (main_n 4 (world_ok square)) = None \<and>
   length (writes (events 4 (world_ok square))) = 4 \<and>
   Op_chip_close \<notin> set (map op_of (events 4 (world_ok square)))"
  using C3_loop_never_exits [of "world_ok square" 4]
  by (simp add: devices_world_ok)

text \<open>
  \<^bold>\<open>C4.\<close> The startup ends with the request of the output line for output under the label
  \<^verbatim>\<open>gpio_out\<close> with the initial value 0. It is the only request for output of the run,
  no write comes before the first pass of the loop, and so the value the program has
  given to the output before the first pass is 0.
\<close>

theorem C4_output_requested_low:
  assumes "devices w GPIO_CHIP = Some c"
  shows "last (events 0 w) =
           Line_request_output (lines w c OUTPUT_LINE) ''gpio_out'' 0
             (request_output_rc w (lines w c OUTPUT_LINE) ''gpio_out'' 0) \<and>
         output_handles (events n w) = [lines w c OUTPUT_LINE] \<and>
         writes (events 0 w) = [] \<and>
         outputs (events 0 w) = [0] \<and>
         out_value (events 0 w) = Some 0"
proof -
  let ?il = "lines w c INPUT_LINE" and ?ol = "lines w c OUTPUT_LINE"
  have ev: "\<And>m. events m w = startup_events w c @ loop_events w ?il ?ol m"
    by (rule events_ok [OF assms])
  have "loop_only (loop_events w ?il ?ol n)"
    by (rule loop_only_loop)
  then have "output_handles (loop_events w ?il ?ol n) = []"
    by (rule loop_only_obs)
  then have oh: "output_handles (events n w) = [?ol]"
    by (simp add: ev output_handles_append startup_events_def)
  have e0: "events 0 w = startup_events w c"
    by (simp add: ev loop_events_0)
  show ?thesis
    by (simp add: oh) (simp add: e0 startup_events_def out_value_def)
qed

theorem C4_output_requested_low_witness:
  "devices (world_ok square) GPIO_CHIP = Some (Chip 0) \<and>
   last (events 0 (world_ok square)) = Line_request_output (Some (Line 24)) ''gpio_out'' 0 0 \<and>
   output_handles (events 2 (world_ok square)) = [Some (Line 24)] \<and>
   writes (events 0 (world_ok square)) = [] \<and>
   out_value (events 0 (world_ok square)) = Some 0"
  using C4_output_requested_low [where w = "world_ok square" and c = "Chip 0" and n = 2]
  by (simp add: devices_world_ok) (simp add: world_ok_def OUTPUT_LINE_def)

text \<open>
  \<^bold>\<open>C5.\<close> After a successful open, nothing depends on what the two calls that get a line
  and the two calls that request one return: for every world the program makes these four
  calls, goes on to the loop and is still running after any number of passes, and the
  loop reads and writes on the handles it was given, NULL included.
\<close>

theorem C5_startup_results_unchecked:
  assumes "devices w GPIO_CHIP = Some c"
  shows "fst (main_n n w) = None \<and>
         map op_of (events n w) =
           [Op_chip_open, Op_get_line, Op_get_line, Op_request_input, Op_request_output] @
           concat (replicate n [Op_get_value, Op_set_value, Op_usleep]) \<and>
         read_handles (events n w) = replicate n (lines w c INPUT_LINE) \<and>
         written_handles (events n w) = replicate n (lines w c OUTPUT_LINE)"
proof -
  let ?il = "lines w c INPUT_LINE" and ?ol = "lines w c OUTPUT_LINE"
  have ev: "events n w = startup_events w c @ loop_events w ?il ?ol n"
    by (rule events_ok [OF assms])
  have st: "fst (main_n n w) = None"
    by (simp add: main_n_ok [OF assms])
  have ops: "map op_of (events n w) =
      [Op_chip_open, Op_get_line, Op_get_line, Op_request_input, Op_request_output] @
      concat (replicate n [Op_get_value, Op_set_value, Op_usleep])"
    by (simp add: ev ops_loop startup_events_def)
  have rh: "read_handles (events n w) = replicate n ?il"
    by (simp add: ev read_handles_append read_handles_loop startup_events_def)
  have wh: "written_handles (events n w) = replicate n ?ol"
    by (simp add: ev written_handles_append written_handles_loop startup_events_def)
  from st ops rh wh show ?thesis by simp
qed

theorem C5_startup_results_unchecked_witness:
  "devices world_failing GPIO_CHIP = Some (Chip 7) \<and>
   lines world_failing (Chip 7) INPUT_LINE = None \<and>
   lines world_failing (Chip 7) OUTPUT_LINE = None \<and>
   request_input_rc world_failing None ''gpio_in'' = - 1 \<and>
   request_output_rc world_failing None ''gpio_out'' 0 = - 1 \<and>
   fst (main_n 2 world_failing) = None \<and>
   map op_of (events 2 world_failing) =
     [Op_chip_open, Op_get_line, Op_get_line, Op_request_input, Op_request_output,
      Op_get_value, Op_set_value, Op_usleep, Op_get_value, Op_set_value, Op_usleep] \<and>
   read_handles (events 2 world_failing) = [None, None] \<and>
   written_handles (events 2 world_failing) = [None, None]"
  using C5_startup_results_unchecked [where w = world_failing and c = "Chip 7" and n = 2]
  by (simp add: devices_world_failing numeral_2_eq_2) (simp add: world_failing_def)

text \<open>
  \<^bold>\<open>C6.\<close> Each pass of the loop makes three calls and no other, in this order: it reads
  the input line, writes the value read to the output line, and sleeps for 10000
  microseconds, that is 10 milliseconds.
\<close>

theorem C6_loop_pass_three_steps:
  assumes "devices w GPIO_CHIP = Some c"
  shows "events (Suc k) w =
           events k w @
           [Line_get_value (lines w c INPUT_LINE) (signal w k),
            Line_set_value (lines w c OUTPUT_LINE) (signal w k)
              (set_value_rc w (lines w c OUTPUT_LINE) (signal w k)),
            Usleep (10 * 1000)] \<and>
         map op_of (drop (length (events k w)) (events (Suc k) w)) =
           [Op_get_value, Op_set_value, Op_usleep]"
proof -
  let ?il = "lines w c INPUT_LINE" and ?ol = "lines w c OUTPUT_LINE"
  have ev: "\<And>m. events m w = startup_events w c @ loop_events w ?il ?ol m"
    by (rule events_ok [OF assms])
  have step: "events (Suc k) w = events k w @ pass_events w ?il ?ol k"
    by (simp add: ev loop_events_Suc)
  show ?thesis
    by (simp add: step) (simp add: pass_events_def)
qed

theorem C6_loop_pass_three_steps_witness:
  "devices (world_ok square) GPIO_CHIP = Some (Chip 0) \<and>
   events (Suc 1) (world_ok square) =
     events 1 (world_ok square) @
     [Line_get_value (Some (Line 10)) 1, Line_set_value (Some (Line 24)) 1 0, Usleep 10000] \<and>
   map op_of (drop (length (events 1 (world_ok square))) (events (Suc 1) (world_ok square))) =
     [Op_get_value, Op_set_value, Op_usleep]"
  using C6_loop_pass_three_steps [where w = "world_ok square" and c = "Chip 0" and k = 1]
  by (simp add: devices_world_ok)
    (simp add: world_ok_def square_def INPUT_LINE_def OUTPUT_LINE_def)

text \<open>
  \<^bold>\<open>C7.\<close> In every world and at every point of the run, the only path opened is
  \<^verbatim>\<open>/dev/gpiochip0\<close>, and the offsets of the lines taken are 10 and 24, in this order
  (none when the open fails). \<^verbatim>\<open>main\<close> has no parameter, and nothing in the world changes
  the path or the offsets.
\<close>

theorem C7_fixed_path_and_offsets:
  "open_paths (events n w) = [''/dev/gpiochip0''] \<and>
   line_offsets (events n w) = (if devices w ''/dev/gpiochip0'' = None then [] else [10, 24])"
proof (cases "devices w GPIO_CHIP")
  case None
  then show ?thesis
    by (simp add: events_fail [OF None]) (simp add: GPIO_CHIP_def)
next
  case (Some c)
  let ?il = "lines w c INPUT_LINE" and ?ol = "lines w c OUTPUT_LINE"
  have lo: "loop_only (loop_events w ?il ?ol n)"
    by (rule loop_only_loop)
  have "open_paths (loop_events w ?il ?ol n) = []"
    and "line_offsets (loop_events w ?il ?ol n) = []"
    by (rule loop_only_obs [OF lo])+
  then have "open_paths (events n w) = [GPIO_CHIP]"
    and "line_offsets (events n w) = [INPUT_LINE, OUTPUT_LINE]"
    by (simp_all add: events_ok [OF Some] open_paths_append line_offsets_append
        startup_events_def)
  with Some show ?thesis
    by (simp add: GPIO_CHIP_def INPUT_LINE_def OUTPUT_LINE_def)
qed

theorem C7_fixed_path_and_offsets_witness:
  "open_paths (events 2 (world_ok square)) = [''/dev/gpiochip0''] \<and>
   line_offsets (events 2 (world_ok square)) = [10, 24] \<and>
   open_paths (events 2 world_absent) = [''/dev/gpiochip0''] \<and>
   line_offsets (events 2 world_absent) = []"
  using C7_fixed_path_and_offsets [of 2 "world_ok square"]
    C7_fixed_path_and_offsets [of 2 world_absent]
  by (simp add: world_ok_def world_absent_def)

text \<open>
  \<^bold>\<open>C8.\<close> At every point of every run (every prefix of the calls made after any number
  of passes) the handles are in order: at most one chip is open, at most one handle has
  been requested as input and at most one as output, both were got from the chip that
  was opened, and the loop reads and writes only these.
\<close>

theorem C8_handles_invariant:
  assumes "prefix t (events n w)"
  shows "handles_ok t"
proof (cases "devices w GPIO_CHIP")
  case None
  with assms show ?thesis
    by (simp add: events_fail handles_ok_fail)
next
  case (Some c)
  let ?L = "loop_events w (lines w c INPUT_LINE) (lines w c OUTPUT_LINE) n"
  from assms have "prefix t (startup_events w c @ ?L)"
    by (simp add: events_ok [OF Some])
  then consider "prefix t (startup_events w c)"
    | u where "t = startup_events w c @ u" and "prefix u ?L"
    by (auto simp: prefix_append)
  then show ?thesis
  proof cases
    case 1
    then show ?thesis by (rule handles_ok_startup_prefix)
  next
    case 2
    then show ?thesis by (simp add: handles_ok_startup_loop)
  qed
qed

theorem C8_handles_invariant_witness:
  "prefix
     [Chip_open ''/dev/gpiochip0'' (Some (Chip 0)),
      Chip_get_line (Chip 0) 10 (Some (Line 10)),
      Chip_get_line (Chip 0) 24 (Some (Line 24)),
      Line_request_input (Some (Line 10)) ''gpio_in'' 0,
      Line_request_output (Some (Line 24)) ''gpio_out'' 0 0,
      Line_get_value (Some (Line 10)) 0]
     (events 1 (world_ok square)) \<and>
   handles_ok
     [Chip_open ''/dev/gpiochip0'' (Some (Chip 0)),
      Chip_get_line (Chip 0) 10 (Some (Line 10)),
      Chip_get_line (Chip 0) 24 (Some (Line 24)),
      Line_request_input (Some (Line 10)) ''gpio_in'' 0,
      Line_request_output (Some (Line 24)) ''gpio_out'' 0 0,
      Line_get_value (Some (Line 10)) 0]"
proof -
  have p: "prefix
     [Chip_open ''/dev/gpiochip0'' (Some (Chip 0)),
      Chip_get_line (Chip 0) 10 (Some (Line 10)),
      Chip_get_line (Chip 0) 24 (Some (Line 24)),
      Line_request_input (Some (Line 10)) ''gpio_in'' 0,
      Line_request_output (Some (Line 24)) ''gpio_out'' 0 0,
      Line_get_value (Some (Line 10)) 0]
     (events 1 (world_ok square))"
    by (simp add: events_def main_n_def startup_def loop_body_def gpiod_chip_open_def
        gpiod_chip_get_line_def gpiod_line_request_input_def gpiod_line_request_output_def
        gpiod_line_get_value_def gpiod_line_set_value_def usleep_def world_ok_def square_def
        GPIO_CHIP_def INPUT_LINE_def OUTPUT_LINE_def Let_def)
  from p C8_handles_invariant [OF p] show ?thesis by simp
qed

text \<open>
  \<^bold>\<open>C9.\<close> The two offsets differ. The only handle requested as input is the one got for
  the offset 10 and the only handle requested as output is the one got for the offset
  24; so when the library gives different lines for different offsets, no line is
  requested both as input and as output.
\<close>

theorem C9_distinct_lines:
  assumes "devices w GPIO_CHIP = Some c"
    and "inj_on (lines w c) {off. lines w c off \<noteq> None}"
  shows "INPUT_LINE \<noteq> OUTPUT_LINE \<and>
         input_handles (events n w) = [lines w c INPUT_LINE] \<and>
         output_handles (events n w) = [lines w c OUTPUT_LINE] \<and>
         set (input_handles (events n w)) \<inter> set (output_handles (events n w)) \<subseteq> {None}"
proof -
  let ?il = "lines w c INPUT_LINE" and ?ol = "lines w c OUTPUT_LINE"
  have ne: "INPUT_LINE \<noteq> OUTPUT_LINE"
    by (simp add: INPUT_LINE_def OUTPUT_LINE_def)
  have lo: "loop_only (loop_events w ?il ?ol n)"
    by (rule loop_only_loop)
  have "input_handles (loop_events w ?il ?ol n) = []"
    and "output_handles (loop_events w ?il ?ol n) = []"
    by (rule loop_only_obs [OF lo])+
  then have ih: "input_handles (events n w) = [?il]"
    and oh: "output_handles (events n w) = [?ol]"
    by (simp_all add: events_ok [OF assms(1)] input_handles_append output_handles_append
        startup_events_def)
  have "?il = ?ol \<Longrightarrow> ?il = None"
  proof (rule ccontr)
    assume eq: "?il = ?ol" and "?il \<noteq> None"
    then have "INPUT_LINE \<in> {off. lines w c off \<noteq> None}"
      and "OUTPUT_LINE \<in> {off. lines w c off \<noteq> None}"
      by simp_all
    with assms(2) eq have "INPUT_LINE = OUTPUT_LINE"
      by (rule inj_onD)
    with ne show False ..
  qed
  then have "{?il} \<inter> {?ol} \<subseteq> {None}"
    by auto
  with ne ih oh show ?thesis by simp
qed

theorem C9_distinct_lines_witness:
  "devices (world_ok square) GPIO_CHIP = Some (Chip 0) \<and>
   inj_on (lines (world_ok square) (Chip 0)) {off. lines (world_ok square) (Chip 0) off \<noteq> None} \<and>
   INPUT_LINE \<noteq> OUTPUT_LINE \<and>
   input_handles (events 3 (world_ok square)) = [Some (Line 10)] \<and>
   output_handles (events 3 (world_ok square)) = [Some (Line 24)] \<and>
   set (input_handles (events 3 (world_ok square))) \<inter>
     set (output_handles (events 3 (world_ok square))) = {}"
proof -
  have i: "inj_on (lines (world_ok square) (Chip 0))
      {off. lines (world_ok square) (Chip 0) off \<noteq> None}"
    by (simp add: world_ok_def inj_on_def)
  have l: "lines (world_ok square) (Chip 0) INPUT_LINE = Some (Line 10)"
    "lines (world_ok square) (Chip 0) OUTPUT_LINE = Some (Line 24)"
    by (simp_all add: world_ok_def INPUT_LINE_def OUTPUT_LINE_def)
  show ?thesis
    using C9_distinct_lines [OF devices_world_ok i, of 3] i
    by (simp add: devices_world_ok l)
qed



end
